theory Spec2Isabelle
  imports Main
begin

section \<open>The NOSTRA\_ALPHA loan state computation (\<open>nostra_alpha/run.py\<close>)\<close>

text \<open>
  The development embeds the three methods of \<open>NostraAlphaStateComputation\<close> (
  \<open>get_data\<close>, \<open>process_data\<close> and \<open>run\<close>) as HOL functions.  What the class takes from
  elsewhere (the API connector, the constants of the base class, the table and the state
  class of \<open>events.py\<close>, and the inherited methods \<open>process_event\<close>, \<open>get_result_df\<close>
  and \<open>save_data\<close>) is not part of the file under study and enters as a parameter.
\<close>

subsection \<open>Data\<close>

text \<open>
  A raw event is a Python \<open>dict\<close> from field names to values; the values considered
  here are strings (the type tag under \<open>key_name\<close>, addresses) and integers.
\<close>

datatype val = VStr string | VInt int

type_synonym raw_event = "string \<rightharpoonup> val"

text \<open>
  A cell of a pandas frame built from such records: a string, an integer, a float64 (only
  floats that come from integers arise, so \<open>CFloat\<close> carries the integer that is the
  float's value), or the missing value NaN.  A row of the frame has a cell for every
  column of the frame.
\<close>

datatype cell = CStr string | CInt int | CFloat int | CNaN

type_synonym row = "string \<rightharpoonup> cell"

text \<open>
  \<open>KeyError\<close> is what pandas raises for \<open>df["key_name"]\<close> on a frame without that
  column; \<open>MalformedEventError\<close> stands for whatever an event handler raises.
\<close>

datatype error = KeyError string | MalformedEventError

text \<open>
  The collaborators of the class.  \<open>api_get_data\<close> is \<open>self.api_connector.get_data\<close>
  (arguments \<open>from_address\<close>, \<open>min_block_number\<close>, \<open>max_block_number\<close>);
  \<open>NostraAlphaState\<close> is the freshly constructed state object, \<open>EVENTS_METHODS_MAPPING\<close>
  its table from type tags to method names; \<open>process_event\<close> is the inherited method that
  applies one row of the frame to the state object (it returns the changed object, or
  raises);
  \<open>get_result_df\<close> turns the loan entities of a state object into the frame to be saved.
  The handler is taken to act on the state object alone: it changes neither the cursor
  nor the retry counter of the computation.
\<close>

record ('l, 'df) env =
  api_get_data :: "string \<Rightarrow> int \<Rightarrow> int \<Rightarrow> raw_event list"
  PAGINATION_SIZE :: int
  PROTOCOL_ADDRESSES :: "string list"
  EVENTS_METHODS_MAPPING :: "string \<rightharpoonup> string"
  NostraAlphaState :: 'l
  process_event :: "'l \<Rightarrow> string \<Rightarrow> row \<Rightarrow> error + 'l"
  get_result_df :: "'l \<Rightarrow> 'df"

text \<open>
  The state that \<open>run\<close> changes: the attribute \<open>self.last_block\<close>, the local variable
  \<open>retry\<close>, and two logs that make the effects on the collaborators visible: the calls
  issued to the API connector (address, lower bound, upper bound) and the frames handed to
  \<open>save_data\<close>, both in the order of the calls.  \<open>save_data\<close> is taken to succeed.
\<close>

record 'df state =
  last_block :: int
  retry :: int
  fetches :: "(string \<times> int \<times> int) list"
  saved :: "'df list"

subsection \<open>\<open>get_data\<close>\<close>

definition get_data ::
  "('l, 'df) env \<Rightarrow> 'df state \<Rightarrow> string \<Rightarrow> int \<Rightarrow> raw_event list \<times> 'df state" where
  "get_data E st form_address min_block =
     (api_get_data E form_address (last_block st) (min_block + PAGINATION_SIZE E),
      st\<lparr>fetches := fetches st @
            [(form_address, last_block st, min_block + PAGINATION_SIZE E)]\<rparr>)"


subsection \<open>\<open>process_data\<close>\<close>

text \<open>
  \<open>pd.DataFrame(data)\<close> of a list of dicts has one column for every key that occurs in
  some dict and one row for every dict, in the order of the list.  So \<open>df["key_name"]\<close>
  raises \<open>KeyError\<close> exactly when no record has the key (in particular for the empty
  list).
\<close>

definition has_column :: "string \<Rightarrow> raw_event list \<Rightarrow> bool" where
  "has_column c data = list_ex (\<lambda>r. r c \<noteq> None) data"

text \<open>
  A record without a key of the frame gets NaN in that column, and pandas then looks for
  a common type of the column: when every value present is an integer in the range of
  \<open>int64\<close> or \<open>uint64\<close> (not both a negative one and one above \<open>int64\<close>), the column
  becomes \<open>float64\<close> and the integers are converted; otherwise (strings, wider integers)
  the column holds the objects as they are.  A column without gaps keeps its values.
\<close>

definition complete :: "string \<Rightarrow> raw_event list \<Rightarrow> bool" where
  "complete c data = list_all (\<lambda>r. r c \<noteq> None) data"

definition numeric :: "string \<Rightarrow> raw_event list \<Rightarrow> bool" where
  "numeric c data =
     (list_all (\<lambda>r. case r c of
                      None \<Rightarrow> True
                    | Some (VStr s) \<Rightarrow> False
                    | Some (VInt n) \<Rightarrow> - (2 ^ 63) \<le> n \<and> n < 2 ^ 64) data
      \<and> \<not> (list_ex (\<lambda>r. case r c of Some (VInt n) \<Rightarrow> n < 0 | _ \<Rightarrow> False) data
           \<and> list_ex (\<lambda>r. case r c of Some (VInt n) \<Rightarrow> 2 ^ 63 \<le> n | _ \<Rightarrow> False) data))"

text \<open>
  The conversion of an integer to \<open>float64\<close>: the nearest number with a mantissa of 53
  bits, ties to the even mantissa.  \<open>excess_bits a\<close> is the number of low bits of \<open>a\<close>
  that do not fit.
\<close>

function excess_bits :: "nat \<Rightarrow> nat" where
  "excess_bits a = (if a < 2 ^ 53 then 0 else Suc (excess_bits (a div 2)))"
  by pat_completeness auto
termination
  by (relation "measure (\<lambda>a. a)") auto

declare excess_bits.simps [simp del]

definition float64 :: "int \<Rightarrow> int" where
  "float64 n =
     (let a = nat \<bar>n\<bar>;
          e = excess_bits a;
          q = a div 2 ^ e;
          r = a mod 2 ^ e;
          m = (if 2 ^ e < 2 * r \<or> (2 * r = 2 ^ e \<and> odd q) then q + 1 else q)
      in sgn n * int (m * 2 ^ e))"

text \<open>The cell of record \<open>r\<close> in column \<open>c\<close> of the frame of \<open>data\<close>, and its row.\<close>

definition frame_cell :: "raw_event list \<Rightarrow> string \<Rightarrow> raw_event \<Rightarrow> cell option" where
  "frame_cell data c r =
     (if \<not> has_column c data then None
      else Some (case r c of
                   None \<Rightarrow> CNaN
                 | Some (VStr s) \<Rightarrow> CStr s
                 | Some (VInt n) \<Rightarrow>
                     if \<not> complete c data \<and> numeric c data then CFloat (float64 n)
                     else CInt n))"

definition frame_row :: "raw_event list \<Rightarrow> raw_event \<Rightarrow> row" where
  "frame_row data r = (\<lambda>c. frame_cell data c r)"

definition DataFrame :: "raw_event list \<Rightarrow> row list" where
  "DataFrame data = map (frame_row data) data"



text \<open>
  \<open>df["key_name"].isin(events_mapping.keys())\<close>, row by row: the cell is a key of the
  table.  A missing cell and a cell that is not a string are not among the keys.
\<close>

definition isin :: "(string \<rightharpoonup> string) \<Rightarrow> row \<Rightarrow> bool" where
  "isin events_mapping row =
     (case row ''key_name'' of
        Some (CStr t) \<Rightarrow> events_mapping t \<noteq> None
      | _ \<Rightarrow> False)"

definition df_filtered :: "(string \<rightharpoonup> string) \<Rightarrow> row list \<Rightarrow> row list" where
  "df_filtered events_mapping df = filter (isin events_mapping) df"

text \<open>\<open>events_mapping.get(row["key_name"], "") or ""\<close>\<close>

definition method_name :: "(string \<rightharpoonup> string) \<Rightarrow> row \<Rightarrow> string" where
  "method_name events_mapping row =
     (case row ''key_name'' of
        Some (CStr t) \<Rightarrow> (case events_mapping t of Some m \<Rightarrow> m | None \<Rightarrow> [])
      | _ \<Rightarrow> [])"

text \<open>
  The loop \<open>for index, row in df_filtered.iterrows()\<close>: the rows in index order, each
  handed to \<open>process_event\<close> with the state object; an exception ends the loop.
\<close>

fun iterrows :: "('l, 'df) env \<Rightarrow> row list \<Rightarrow> 'l \<Rightarrow> error + 'l" where
  "iterrows E [] nostra_alpha_state = Inr nostra_alpha_state"
| "iterrows E (row # rows) nostra_alpha_state =
     (case process_event E nostra_alpha_state
             (method_name (EVENTS_METHODS_MAPPING E) row) row of
        Inl e \<Rightarrow> Inl e
      | Inr s \<Rightarrow> iterrows E rows s)"

text \<open>
  The frame is built from the whole page before it is filtered; the state object is
  created anew in every call.
\<close>

definition process_data :: "('l, 'df) env \<Rightarrow> raw_event list \<Rightarrow> error + 'df" where
  "process_data E data =
     (if \<not> has_column ''key_name'' data then Inl (KeyError ''key_name'')
      else case iterrows E (df_filtered (EVENTS_METHODS_MAPPING E) (DataFrame data))
                  (NostraAlphaState E) of
             Inl e \<Rightarrow> Inl e
           | Inr s \<Rightarrow> Inr (get_result_df E s))"

subsection \<open>\<open>run\<close>\<close>

text \<open>
  One pass through the body of \<open>while True\<close>.  \<open>Continue\<close> is the \<open>continue\<close> statement
  and the fall through the end of the body, \<open>Break\<close> the \<open>break\<close>, \<open>Raise\<close> an exception
  that leaves \<open>run\<close>.
\<close>

datatype 's outcome = Continue 's | Break 's | Raise error 's

definition loop_body ::
  "('l, 'df) env \<Rightarrow> int \<Rightarrow> string \<Rightarrow> 'df state \<Rightarrow> 'df state outcome" where
  "loop_body E max_retries protocol_address st =
     (case get_data E st protocol_address (last_block st) of (data, st1) \<Rightarrow>
        if data = [] \<and> retry st1 < max_retries then
          Continue (st1\<lparr>last_block := last_block st1 + PAGINATION_SIZE E,
                        retry := retry st1 + 1\<rparr>)
        else if retry st1 = max_retries then Break st1
        else
          (case process_data E data of
             Inl e \<Rightarrow> Raise e st1
           | Inr processed_data \<Rightarrow>
               Continue (st1\<lparr>saved := saved st1 @ [processed_data],
                             last_block := last_block st1 + PAGINATION_SIZE E\<rparr>)))"

text \<open>
  \<open>while True\<close> may run forever (a source that never runs dry); \<open>None\<close> is that case.
  A run that ends gives \<open>Inr\<close> the state at the \<open>break\<close>, or \<open>Inl\<close> the exception with
  the state it left behind.
\<close>

partial_function (option) while_true ::
  "('l, 'df) env \<Rightarrow> int \<Rightarrow> string \<Rightarrow> 'df state \<Rightarrow> ((error \<times> 'df state) + 'df state) option" where
  "while_true E max_retries protocol_address st =
     (case loop_body E max_retries protocol_address st of
        Continue st' \<Rightarrow> while_true E max_retries protocol_address st'
      | Break st' \<Rightarrow> Some (Inr st')
      | Raise e st' \<Rightarrow> Some (Inl (e, st')))"

text \<open>\<open>for protocol_address in self.PROTOCOL_ADDRESSES\<close>\<close>

fun for_addresses ::
  "('l, 'df) env \<Rightarrow> int \<Rightarrow> string list \<Rightarrow> 'df state \<Rightarrow> ((error \<times> 'df state) + 'df state) option" where
  "for_addresses E max_retries [] st = Some (Inr st)"
| "for_addresses E max_retries (protocol_address # rest) st =
     (case while_true E max_retries protocol_address st of
        None \<Rightarrow> None
      | Some (Inl x) \<Rightarrow> Some (Inl x)
      | Some (Inr st') \<Rightarrow> for_addresses E max_retries rest st')"

text \<open>
  \<open>run\<close> starts with \<open>retry = 0\<close> and the \<open>last_block\<close> the object was constructed with.
  The source fixes \<open>max_retries = 5\<close>; \<open>run_with\<close> is the same method with the bound as
  an argument.
\<close>

definition init_state :: "int \<Rightarrow> 'df state" where
  "init_state b = \<lparr>last_block = b, retry = 0, fetches = [], saved = []\<rparr>"

definition run_with ::
  "('l, 'df) env \<Rightarrow> int \<Rightarrow> int \<Rightarrow> ((error \<times> 'df state) + 'df state) option" where
  "run_with E max_retries b = for_addresses E max_retries (PROTOCOL_ADDRESSES E) (init_state b)"

definition run :: "('l, 'df) env \<Rightarrow> int \<Rightarrow> ((error \<times> 'df state) + 'df state) option" where
  "run E b = run_with E 5 b"

text \<open>The state an iteration ends with, whichever way it ends.\<close>

fun outcome_state :: "'s outcome \<Rightarrow> 's" where
  "outcome_state (Continue s) = s"
| "outcome_state (Break s) = s"
| "outcome_state (Raise e s) = s"

text \<open>
  \<open>windows a lo w n\<close> lists \<open>n\<close> consecutive block ranges of width \<open>w\<close> for address
  \<open>a\<close>, the first starting at \<open>lo\<close>, as entries of the fetch log.
\<close>

fun windows :: "string \<Rightarrow> int \<Rightarrow> int \<Rightarrow> nat \<Rightarrow> (string \<times> int \<times> int) list" where
  "windows a lo w 0 = []"
| "windows a lo w (Suc n) = (a, lo, lo + w) # windows a (lo + w) w n"


text \<open>
  An event of the page has a registered mutation when its type tag is a key of the table.
\<close>

definition registered :: "(string \<rightharpoonup> string) \<Rightarrow> raw_event \<Rightarrow> bool" where
  "registered events_mapping r =
     (case r ''key_name'' of
        Some (VStr t) \<Rightarrow> events_mapping t \<noteq> None
      | _ \<Rightarrow> False)"

text \<open>
  \<open>delivers E a b ps\<close>: \<open>a\<close> is the only configured address, and queried window by
  window from block \<open>b\<close> on, the source answers with the pages \<open>ps\<close>, none of them empty,
  and with nothing after them.
\<close>

definition delivers :: "('l, 'df) env \<Rightarrow> string \<Rightarrow> int \<Rightarrow> raw_event list list \<Rightarrow> bool" where
  "delivers E a b ps =
     (PROTOCOL_ADDRESSES E = [a]
      \<and> (\<forall>i<length ps.
            api_get_data E a (b + int i * PAGINATION_SIZE E)
              (b + int i * PAGINATION_SIZE E + PAGINATION_SIZE E) = ps ! i
            \<and> ps ! i \<noteq> [])
      \<and> (\<forall>k\<ge>length ps.
            api_get_data E a (b + int k * PAGINATION_SIZE E)
              (b + int k * PAGINATION_SIZE E + PAGINATION_SIZE E) = []))"

subsection \<open>A concrete ledger and event source\<close>

text \<open>
  Modelled from the spec: the ledger, its mutations and the event source, which live in
  \<open>events.py\<close>, in the base class and behind the API and are not part of the file under
  study.  The ledger maps an account identifier to its collateral amount per asset (in
  order of first reference); an account or asset starts at zero on first reference; a
  deposit adds to the amount, a withdrawal subtracts and is clamped at zero; a payload
  without a \<open>user\<close>, a \<open>token\<close> or a number as \<open>amount\<close> is malformed.  Amounts follow
  Python's arithmetic: integers stay integers, and an operation with a float gives the
  float nearest to the result.  The projection lists the ledger's records.  The source
  answers a query with the events of the address whose block lies in the half-open range.
  These definitions serve the concrete runs below; the general theorems do not depend on
  them.
\<close>

datatype amount = AInt int | AFloat int

fun as_float :: "amount \<Rightarrow> int" where
  "as_float (AInt n) = float64 n"
| "as_float (AFloat x) = x"

fun plus_amount :: "amount \<Rightarrow> amount \<Rightarrow> amount" where
  "plus_amount (AInt a) (AInt b) = AInt (a + b)"
| "plus_amount x y = AFloat (float64 (as_float x + as_float y))"

fun negate :: "amount \<Rightarrow> amount" where
  "negate (AInt n) = AInt (- n)"
| "negate (AFloat x) = AFloat (- x)"

fun clamp :: "amount \<Rightarrow> amount" where
  "clamp (AInt n) = (if n < 0 then AInt 0 else AInt n)"
| "clamp (AFloat x) = (if x < 0 then AInt 0 else AFloat x)"

fun amount_of :: "cell option \<Rightarrow> amount option" where
  "amount_of (Some (CInt n)) = Some (AInt n)"
| "amount_of (Some (CFloat x)) = Some (AFloat x)"
| "amount_of _ = None"

type_synonym ledger = "(string \<times> (string \<times> amount) list) list"

fun credit :: "string \<Rightarrow> amount \<Rightarrow> (string \<times> amount) list \<Rightarrow> (string \<times> amount) list" where
  "credit asset n [] = [(asset, clamp (plus_amount (AInt 0) n))]"
| "credit asset n ((a, v) # rest) =
     (if a = asset then (a, clamp (plus_amount v n)) # rest else (a, v) # credit asset n rest)"

fun upsert :: "string \<Rightarrow> string \<Rightarrow> amount \<Rightarrow> ledger \<Rightarrow> ledger" where
  "upsert acct asset n [] = [(acct, credit asset n [])]"
| "upsert acct asset n ((u, pos) # rest) =
     (if u = acct then (u, credit asset n pos) # rest else (u, pos) # upsert acct asset n rest)"

definition spec_process_event :: "ledger \<Rightarrow> string \<Rightarrow> row \<Rightarrow> error + ledger" where
  "spec_process_event l m row =
     (case (row ''user'', row ''token'', amount_of (row ''amount'')) of
        (Some (CStr u), Some (CStr t), Some n) \<Rightarrow>
          if m = ''process_deposit'' then Inr (upsert u t n l)
          else if m = ''process_withdraw'' then Inr (upsert u t (negate n) l)
          else Inr l
      | _ \<Rightarrow> Inl MalformedEventError)"

definition spec_mapping :: "string \<rightharpoonup> string" where
  "spec_mapping = [''Deposit'' \<mapsto> ''process_deposit'', ''Withdraw'' \<mapsto> ''process_withdraw'']"

definition in_range :: "string \<Rightarrow> int \<Rightarrow> int \<Rightarrow> raw_event \<Rightarrow> bool" where
  "in_range a lo hi ev =
     (case (ev ''from_address'', ev ''block_number'') of
        (Some (VStr x), Some (VInt b)) \<Rightarrow> x = a \<and> lo \<le> b \<and> b < hi
      | _ \<Rightarrow> False)"

definition spec_source :: "raw_event list \<Rightarrow> string \<Rightarrow> int \<Rightarrow> int \<Rightarrow> raw_event list" where
  "spec_source chain a lo hi = filter (in_range a lo hi) chain"

definition spec_env :: "raw_event list \<Rightarrow> int \<Rightarrow> string list \<Rightarrow> (ledger, ledger) env" where
  "spec_env chain w addrs =
     \<lparr>api_get_data = spec_source chain, PAGINATION_SIZE = w, PROTOCOL_ADDRESSES = addrs,
      EVENTS_METHODS_MAPPING = spec_mapping, NostraAlphaState = [],
      process_event = spec_process_event, get_result_df = (\<lambda>l. l)\<rparr>"

text \<open>An event record with the fields the concrete ledger and source read.\<close>

definition event :: "string \<Rightarrow> string \<Rightarrow> int \<Rightarrow> string \<Rightarrow> string \<Rightarrow> int \<Rightarrow> raw_event" where
  "event tag a b u t n =
     [''key_name'' \<mapsto> VStr tag, ''from_address'' \<mapsto> VStr a, ''block_number'' \<mapsto> VInt b,
      ''user'' \<mapsto> VStr u, ''token'' \<mapsto> VStr t, ''amount'' \<mapsto> VInt n]"

section \<open>Properties\<close>

subsection \<open>One pass through the loop body\<close>

lemma loop_body_fetches:
  "fetches (outcome_state (loop_body E mr a st)) =
     fetches st @ [(a, last_block st, last_block st + PAGINATION_SIZE E)]"
  by (simp add: loop_body_def get_data_def split: sum.splits)

lemma loop_body_continue_block:
  assumes "loop_body E mr a st = Continue st'"
  shows "last_block st' = last_block st + PAGINATION_SIZE E"
  using assms by (auto simp add: loop_body_def get_data_def split: sum.splits if_splits)

lemma loop_body_empty:
  assumes "api_get_data E a (last_block st) (last_block st + PAGINATION_SIZE E) = []"
    and "retry st < mr"
  shows "loop_body E mr a st =
     Continue \<lparr>last_block = last_block st + PAGINATION_SIZE E, retry = retry st + 1,
       fetches = fetches st @ [(a, last_block st, last_block st + PAGINATION_SIZE E)],
       saved = saved st\<rparr>"
  using assms by (simp add: loop_body_def get_data_def)

lemma loop_body_exhausted:
  assumes "retry st = mr"
  shows "loop_body E mr a st =
     Break \<lparr>last_block = last_block st, retry = retry st,
       fetches = fetches st @ [(a, last_block st, last_block st + PAGINATION_SIZE E)],
       saved = saved st\<rparr>"
  using assms by (simp add: loop_body_def get_data_def)

lemma loop_body_page:
  assumes "api_get_data E a (last_block st) (last_block st + PAGINATION_SIZE E) = data"
    and "data \<noteq> []" and "retry st \<noteq> mr"
  shows "loop_body E mr a st =
     (case process_data E data of
        Inl e \<Rightarrow> Raise e \<lparr>last_block = last_block st, retry = retry st,
            fetches = fetches st @ [(a, last_block st, last_block st + PAGINATION_SIZE E)],
            saved = saved st\<rparr>
      | Inr df \<Rightarrow> Continue \<lparr>last_block = last_block st + PAGINATION_SIZE E, retry = retry st,
            fetches = fetches st @ [(a, last_block st, last_block st + PAGINATION_SIZE E)],
            saved = saved st @ [df]\<rparr>)"
  using assms by (simp add: loop_body_def get_data_def split: sum.splits)

text \<open>
  C8.  Every fetch asks for the range from the cursor to the cursor plus the window:
  \<open>run\<close> calls \<open>get_data\<close> with \<open>min_block = self.last_block\<close>, so the lower bound of
  the query is \<open>last_block\<close> and the upper bound \<open>last_block + PAGINATION_SIZE\<close>; and every
  pass through the loop body, however it ends, issues exactly this one query.
\<close>

theorem fetch_range:
  "get_data E st a (last_block st) =
     (api_get_data E a (last_block st) (last_block st + PAGINATION_SIZE E),
      st\<lparr>fetches := fetches st @ [(a, last_block st, last_block st + PAGINATION_SIZE E)]\<rparr>)
   \<and> fetches (outcome_state (loop_body E mr a st)) =
       fetches st @ [(a, last_block st, last_block st + PAGINATION_SIZE E)]"
  by (simp add: loop_body_def get_data_def split: sum.splits)

text \<open>
  C9.  A pass through the loop body that goes on to another fetch (the \<open>continue\<close> after
  an empty page, or the end of the body after a processed page) leaves the cursor exactly
  one window further; with a positive window that is a strict increase.
\<close>

theorem cursor_advance:
  assumes "loop_body E mr a st = Continue st'"
  shows "last_block st' = last_block st + PAGINATION_SIZE E
     \<and> (0 < PAGINATION_SIZE E \<longrightarrow> last_block st < last_block st')"
  using assms by (auto simp add: loop_body_def get_data_def split: sum.splits if_splits)

theorem cursor_advance_witness:
  "loop_body (spec_env [] 1000 [''A'']) 5 ''A'' (init_state 0)
     = Continue \<lparr>last_block = 1000, retry = 1, fetches = [(''A'', 0, 1000)], saved = []\<rparr>
   \<and> last_block \<lparr>last_block = 1000, retry = 1, fetches = [(''A'', 0, 1000)],
        saved = ([] :: ledger list)\<rparr> = last_block (init_state 0 :: ledger state) + 1000
   \<and> (0::int) < 1000
   \<and> last_block (init_state 0 :: ledger state)
        < last_block \<lparr>last_block = 1000, retry = 1, fetches = [(''A'', 0, 1000)],
            saved = ([] :: ledger list)\<rparr>"
proof -
  have step: "loop_body (spec_env [] 1000 [''A'']) 5 ''A'' (init_state 0)
     = Continue \<lparr>last_block = 1000, retry = 1, fetches = [(''A'', 0, 1000)], saved = []\<rparr>"
    by (simp add: loop_body_def get_data_def init_state_def spec_env_def spec_source_def)
  from cursor_advance [OF step] step show ?thesis
    by (simp add: spec_env_def)
qed

subsection \<open>The loop of one address\<close>

lemma length_windows: "length (windows a lo w n) = n"
  by (induction n arbitrary: lo) simp_all

lemma while_true_dry:
  "nat (mr - retry st) = n \<Longrightarrow> retry st \<le> mr \<Longrightarrow>
   (\<forall>k. api_get_data E a (last_block st + int k * PAGINATION_SIZE E)
          (last_block st + int k * PAGINATION_SIZE E + PAGINATION_SIZE E) = []) \<Longrightarrow>
     while_true E mr a st =
       Some (Inr \<lparr>last_block = last_block st + int n * PAGINATION_SIZE E, retry = mr,
         fetches = fetches st @ windows a (last_block st) (PAGINATION_SIZE E) (Suc n),
         saved = saved st\<rparr>)"
proof (induction n arbitrary: st)
  case 0
  then have "retry st = mr" by simp
  then show ?case
    by (subst while_true.simps) (simp add: loop_body_exhausted)
next
  case (Suc n)
  then have lt: "retry st < mr" by simp
  let ?st1 = "\<lparr>last_block = last_block st + PAGINATION_SIZE E, retry = retry st + 1,
       fetches = fetches st @ [(a, last_block st, last_block st + PAGINATION_SIZE E)],
       saved = saved st\<rparr>"
  have "api_get_data E a (last_block st) (last_block st + PAGINATION_SIZE E) = []"
    using Suc.prems(3) [rule_format, of 0] by simp
  then have body: "loop_body E mr a st = Continue ?st1"
    using lt by (simp add: loop_body_empty)
  have dry: "\<forall>k. api_get_data E a (last_block ?st1 + int k * PAGINATION_SIZE E)
          (last_block ?st1 + int k * PAGINATION_SIZE E + PAGINATION_SIZE E) = []"
  proof
    fix k
    show "api_get_data E a (last_block ?st1 + int k * PAGINATION_SIZE E)
          (last_block ?st1 + int k * PAGINATION_SIZE E + PAGINATION_SIZE E) = []"
      using Suc.prems(3) [rule_format, of "Suc k"] by (simp add: algebra_simps)
  qed
  have "nat (mr - retry ?st1) = n" "retry ?st1 \<le> mr"
    using Suc.prems by simp_all
  from Suc.IH [OF this dry] body show ?case
    by (subst while_true.simps) (simp add: algebra_simps)
qed

lemma while_true_empty_source:
  assumes "\<forall>lo hi. api_get_data E a lo hi = []"
  shows "nat (mr - retry st) = n \<Longrightarrow> retry st \<le> mr \<Longrightarrow>
     while_true E mr a st =
       Some (Inr \<lparr>last_block = last_block st + int n * PAGINATION_SIZE E, retry = mr,
         fetches = fetches st @ windows a (last_block st) (PAGINATION_SIZE E) (Suc n),
         saved = saved st\<rparr>)"
  using assms by (intro while_true_dry) simp_all

text \<open>
  Partial correctness of the loop of one address: when it leaves through \<open>break\<close>, the
  retry counter stands at the bound, and the cursor has moved one window for every fetch
  but the last.
\<close>

lemma while_true_exit:
  "while_true E mr a st = Some r \<Longrightarrow>
     \<forall>st'. r = Inr st' \<longrightarrow>
       retry st' = mr \<and>
       last_block st' = last_block st
          + (int (length (fetches st')) - int (length (fetches st)) - 1) * PAGINATION_SIZE E"
proof (induction rule: while_true.raw_induct [rotated 1, consumes 1])
  case (1 wt E mr a st r)
  show ?case
  proof (cases "loop_body E mr a st")
    case (Continue s)
    have f: "fetches s = fetches st @ [(a, last_block st, last_block st + PAGINATION_SIZE E)]"
      using loop_body_fetches [of E mr a st] Continue by simp
    have l: "last_block s = last_block st + PAGINATION_SIZE E"
      using loop_body_continue_block [OF Continue] by simp
    from 1(2) Continue have "wt E mr a s = Some r" by simp
    from 1(1) [OF this] f l show ?thesis by (simp add: algebra_simps)
  next
    case (Break s)
    with 1(2) have "r = Inr s" by simp
    with Break show ?thesis
      by (auto simp add: loop_body_def get_data_def split: sum.splits if_splits)
  next
    case (Raise e s)
    with 1(2) show ?thesis by auto
  qed
qed

text \<open>
  C1, as the code has it.  On a source that answers every query for the address with an
  empty page, the loop of an address entered with the retry counter at \<open>r \<le> max_retries\<close>
  ends; it has then issued exactly \<open>max_retries - r + 1\<close> fetches, for consecutive
  windows from the cursor on (the last one finds the budget spent and leads to the
  \<open>break\<close>), nothing has been saved, and the run goes on with the next address.  For the
  first address \<open>r = 0\<close>, which makes \<open>max_retries + 1\<close> fetches.
\<close>

theorem empty_source_fetch_count:
  assumes "\<forall>lo hi. api_get_data E a lo hi = []" and "retry st \<le> mr"
  shows "\<exists>st'. while_true E mr a st = Some (Inr st')
     \<and> for_addresses E mr (a # rest) st = for_addresses E mr rest st'
     \<and> fetches st' = fetches st @
          windows a (last_block st) (PAGINATION_SIZE E) (nat (mr - retry st) + 1)
     \<and> length (fetches st') = length (fetches st) + nat (mr - retry st) + 1
     \<and> saved st' = saved st"
  using while_true_empty_source [OF assms(1) refl assms(2)]
  by (simp add: length_windows)

theorem empty_source_fetch_count_witness:
  "(\<forall>lo hi. api_get_data (spec_env [] 1000 [''A'', ''B'']) ''A'' lo hi = [])
   \<and> retry (init_state 0 :: ledger state) \<le> 2
   \<and> (\<exists>st'. while_true (spec_env [] 1000 [''A'', ''B'']) 2 ''A'' (init_state 0) = Some (Inr st')
        \<and> fetches st' = [(''A'', 0, 1000), (''A'', 1000, 2000), (''A'', 2000, 3000)]
        \<and> length (fetches st') = 3)"
proof -
  have h1: "\<forall>lo hi. api_get_data (spec_env [] 1000 [''A'', ''B'']) ''A'' lo hi = []"
    by (simp add: spec_env_def spec_source_def)
  have h2: "retry (init_state 0 :: ledger state) \<le> 2"
    by (simp add: init_state_def)
  from empty_source_fetch_count [OF h1 h2, of "[]"] obtain st' where
    w: "while_true (spec_env [] 1000 [''A'', ''B'']) 2 ''A'' (init_state 0) = Some (Inr st')"
    and f: "fetches st' = fetches (init_state 0 :: ledger state) @
      windows ''A'' (last_block (init_state 0 :: ledger state))
        (PAGINATION_SIZE (spec_env [] 1000 [''A'', ''B'']))
        (nat (2 - retry (init_state 0 :: ledger state)) + 1)"
    by blast
  from f have "fetches st' = [(''A'', 0, 1000), (''A'', 1000, 2000), (''A'', 2000, 3000)]"
    by (simp add: init_state_def spec_env_def eval_nat_numeral)
  with w h1 h2 show ?thesis by auto
qed

text \<open>
  C1 as stated fails.  With the bound of the source, \<open>max_retries = 5\<close>, the run over one
  address on an empty chain issues six fetches, not five; with the bound 2 of the scenario
  it issues three, the third for the range from 2000 to 3000.
\<close>

theorem empty_source_fetch_count_counterexample:
  "run (spec_env [] 1000 [''A'']) 0 =
     Some (Inr \<lparr>last_block = 5000, retry = 5,
       fetches = [(''A'', 0, 1000), (''A'', 1000, 2000), (''A'', 2000, 3000),
                  (''A'', 3000, 4000), (''A'', 4000, 5000), (''A'', 5000, 6000)],
       saved = []\<rparr>)
   \<and> run_with (spec_env [] 1000 [''A'']) 2 0 =
     Some (Inr \<lparr>last_block = 2000, retry = 2,
       fetches = [(''A'', 0, 1000), (''A'', 1000, 2000), (''A'', 2000, 3000)],
       saved = []\<rparr>)"
  by (simp add: run_def run_with_def init_state_def while_true.simps loop_body_def
      get_data_def spec_env_def spec_source_def)

subsection \<open>Evaluating frames and concrete runs\<close>

lemma excess_bits_small: "a < 2 ^ 53 \<Longrightarrow> excess_bits a = 0"
  by (subst excess_bits.simps) simp

lemma excess_bits_large: "\<not> a < 2 ^ 53 \<Longrightarrow> excess_bits a = Suc (excess_bits (a div 2))"
  by (subst excess_bits.simps) simp

lemmas float64_eval = float64_def Let_def excess_bits_small excess_bits_large

lemmas frame_eval = DataFrame_def frame_row_def frame_cell_def has_column_def complete_def
  numeric_def df_filtered_def isin_def method_name_def

lemmas spec_eval = spec_env_def spec_source_def in_range_def event_def spec_mapping_def
  spec_process_event_def process_data_def

lemmas run_eval = run_def run_with_def init_state_def while_true.simps loop_body_def
  get_data_def

subsection \<open>The rows of the frame\<close>

text \<open>
  The row of a record passes the filter exactly when the record has a registered
  mutation, so the filtered frame holds the rows of the registered records, in the order
  of the page.  In a page whose records all have the same fields no cell is missing and
  no column is converted: each row is its record.
\<close>

lemma has_column_iff: "has_column c data \<longleftrightarrow> (\<exists>r\<in>set data. r c \<noteq> None)"
  by (simp add: has_column_def list_ex_iff)

lemma isin_frame_row:
  assumes "r \<in> set data"
  shows "isin M (frame_row data r) = registered M r"
proof (cases "r ''key_name''")
  case None
  then show ?thesis
    by (simp add: isin_def registered_def frame_row_def frame_cell_def)
next
  case (Some v)
  with assms have "has_column ''key_name'' data"
    by (auto simp add: has_column_iff)
  with Some show ?thesis
    by (cases v) (simp_all add: isin_def registered_def frame_row_def frame_cell_def)
qed

lemma filter_frame_rows:
  "set sub \<subseteq> set data \<Longrightarrow>
     filter (isin M) (map (frame_row data) sub) = map (frame_row data) (filter (registered M) sub)"
  by (induction sub) (simp_all add: isin_frame_row)

lemma df_filtered_DataFrame:
  "df_filtered M (DataFrame data) = map (frame_row data) (filter (registered M) data)"
  by (simp add: df_filtered_def DataFrame_def filter_frame_rows)



lemma iterrows_total:
  assumes "process_event E = (\<lambda>s m row. Inr (f s m row))"
  shows "iterrows E rows s =
     Inr (foldl (\<lambda>s row. f s (method_name (EVENTS_METHODS_MAPPING E) row) row) s rows)"
  using assms by (induction rows arbitrary: s) simp_all

lemma iterrows_cong:
  assumes "process_event E1 = process_event E2"
    and "EVENTS_METHODS_MAPPING E1 = EVENTS_METHODS_MAPPING E2"
  shows "iterrows E1 rows s = iterrows E2 rows s"
  using assms by (induction rows arbitrary: s) (simp_all split: sum.splits)

lemma process_data_cong:
  assumes "process_event E1 = process_event E2"
    and "EVENTS_METHODS_MAPPING E1 = EVENTS_METHODS_MAPPING E2"
    and "NostraAlphaState E1 = NostraAlphaState E2"
    and "get_result_df E1 = get_result_df E2"
  shows "process_data E1 p = process_data E2 p"
  unfolding process_data_def iterrows_cong [OF assms(1,2)] assms(2,3,4) ..

subsection \<open>Dispatch within one page\<close>



text \<open>
  C7.  The events with a registered mutation are applied in the order of retrieval:
  \<open>process_data\<close> is the dispatch loop, first row first and up to the first exception,
  over the frame rows of the registered records of the page in the order in which the
  page lists them.  For
  a handler that does not raise, \<open>process_data\<close> projects the ledger obtained by folding
  the handler, from the fresh ledger and from left to right, over the frame rows of the
  registered records of the page, taken in the order in which the page lists them; each
  row goes to the method its tag is mapped to.  The witness takes a handler that appends
  the call it receives to the state, and reads off the calls in page order.
\<close>

theorem dispatch_order:
  assumes "has_column ''key_name'' data"
  shows "process_data E data =
     (case iterrows E
             (map (frame_row data) (filter (registered (EVENTS_METHODS_MAPPING E)) data))
             (NostraAlphaState E) of
        Inl x \<Rightarrow> Inl x
      | Inr s \<Rightarrow> Inr (get_result_df E s))
   \<and> (process_event E = (\<lambda>s m row. Inr (f s m row)) \<longrightarrow>
       process_data E data =
         Inr (get_result_df E
           (foldl (\<lambda>s row. f s (method_name (EVENTS_METHODS_MAPPING E) row) row)
              (NostraAlphaState E)
              (map (frame_row data) (filter (registered (EVENTS_METHODS_MAPPING E)) data)))))"
proof -
  have a: "process_data E data =
     (case iterrows E
             (map (frame_row data) (filter (registered (EVENTS_METHODS_MAPPING E)) data))
             (NostraAlphaState E) of
        Inl x \<Rightarrow> Inl x
      | Inr s \<Rightarrow> Inr (get_result_df E s))"
    using assms by (simp add: process_data_def df_filtered_DataFrame)
  have b: "process_data E data =
         Inr (get_result_df E
           (foldl (\<lambda>s row. f s (method_name (EVENTS_METHODS_MAPPING E) row) row)
              (NostraAlphaState E)
              (map (frame_row data) (filter (registered (EVENTS_METHODS_MAPPING E)) data))))"
    if h: "process_event E = (\<lambda>s m row. Inr (f s m row))"
    unfolding a iterrows_total [OF h] by simp
  from a b show ?thesis by blast
qed

theorem dispatch_order_witness:
  "process_data
     (\<lparr>api_get_data = (\<lambda>a lo hi. []), PAGINATION_SIZE = 1000,
        PROTOCOL_ADDRESSES = [''A''], EVENTS_METHODS_MAPPING = spec_mapping,
        NostraAlphaState = [],
        process_event = (\<lambda>s m row. Inr (s @ [(m, row ''user'', row ''amount'')])),
        get_result_df = (\<lambda>l. l)\<rparr>
       :: ((string \<times> cell option \<times> cell option) list,
           (string \<times> cell option \<times> cell option) list) env)
     [event ''Withdraw'' ''A'' 5 ''u1'' ''X'' 40, event ''Transfer'' ''A'' 6 ''u2'' ''X'' 7,
      event ''Deposit'' ''A'' 7 ''u3'' ''X'' 100]
   = Inr [(''process_withdraw'', Some (CStr ''u1''), Some (CInt 40)),
          (''process_deposit'', Some (CStr ''u3''), Some (CInt 100))]"
proof -
  let ?E = "\<lparr>api_get_data = (\<lambda>a lo hi. []), PAGINATION_SIZE = 1000,
        PROTOCOL_ADDRESSES = [''A''], EVENTS_METHODS_MAPPING = spec_mapping,
        NostraAlphaState = [],
        process_event = (\<lambda>s m row. Inr (s @ [(m, row ''user'', row ''amount'')])),
        get_result_df = (\<lambda>l. l)\<rparr>
       :: ((string \<times> cell option \<times> cell option) list,
           (string \<times> cell option \<times> cell option) list) env"
  let ?data = "[event ''Withdraw'' ''A'' 5 ''u1'' ''X'' 40, event ''Transfer'' ''A'' 6 ''u2'' ''X'' 7,
      event ''Deposit'' ''A'' 7 ''u3'' ''X'' 100]"
  have h1: "process_event ?E = (\<lambda>s m row. Inr ((\<lambda>s m row. s @ [(m, row ''user'', row ''amount'')]) s m row))"
    by simp
  have h2: "has_column ''key_name'' ?data"
    by (simp add: has_column_def event_def)
  from dispatch_order [OF h2, where E = ?E
      and f = "\<lambda>s m row. s @ [(m, row ''user'', row ''amount'')]"] h1
  have "process_data ?E ?data =
         Inr (get_result_df ?E
           (foldl (\<lambda>s row. s @ [(method_name (EVENTS_METHODS_MAPPING ?E) row,
                     row ''user'', row ''amount'')])
              (NostraAlphaState ?E)
              (map (frame_row ?data) (filter (registered (EVENTS_METHODS_MAPPING ?E)) ?data))))"
    by blast
  then show ?thesis
    by (simp add: registered_def frame_eval spec_mapping_def event_def)
qed

text \<open>
  C10, as the code has it.  The column access fails exactly when no record of the page has
  the field \<open>key_name\<close>.  If no record has it, \<open>process_data\<close> raises \<open>KeyError\<close> whatever
  the event handler is (no event is dispatched, no frame is produced), and the run that
  fetched this page with retries left ends with that exception, nothing saved and the
  cursor where it was.  If some record has it (in particular if the page is not empty and
  every record has it), the column access is defined: the result is that of the dispatch
  loop over the filtered frame.  A record without the field has a missing cell there and
  is not dispatched: the rows dispatched are those of the registered records around it.
\<close>

theorem key_name_column:
  "((\<forall>r\<in>set data. r ''key_name'' = None) \<longrightarrow>
       process_data E data = Inl (KeyError ''key_name'')
     \<and> process_data (E\<lparr>process_event := h\<rparr>) data = Inl (KeyError ''key_name'')
     \<and> (api_get_data E a (last_block st) (last_block st + PAGINATION_SIZE E) = data
          \<and> data \<noteq> [] \<and> retry st \<noteq> mr \<longrightarrow>
        while_true E mr a st =
          Some (Inl (KeyError ''key_name'',
            \<lparr>last_block = last_block st, retry = retry st,
             fetches = fetches st @ [(a, last_block st, last_block st + PAGINATION_SIZE E)],
             saved = saved st\<rparr>))))
   \<and> ((\<exists>r\<in>set data. r ''key_name'' \<noteq> None) \<longrightarrow>
        process_data E data =
          (case iterrows E (df_filtered (EVENTS_METHODS_MAPPING E) (DataFrame data))
                  (NostraAlphaState E) of
             Inl e \<Rightarrow> Inl e
           | Inr s \<Rightarrow> Inr (get_result_df E s)))
   \<and> (r ''key_name'' = None \<longrightarrow>
        df_filtered (EVENTS_METHODS_MAPPING E) (DataFrame (xs @ r # ys))
          = map (frame_row (xs @ r # ys))
              (filter (registered (EVENTS_METHODS_MAPPING E)) (xs @ ys)))"
proof -
  have d: "df_filtered (EVENTS_METHODS_MAPPING E) (DataFrame (xs @ r # ys))
          = map (frame_row (xs @ r # ys))
              (filter (registered (EVENTS_METHODS_MAPPING E)) (xs @ ys))"
    if "r ''key_name'' = None"
    using that by (simp add: df_filtered_DataFrame registered_def)
  have a: "process_data E data = Inl (KeyError ''key_name'')"
    if "\<forall>r\<in>set data. r ''key_name'' = None"
    using that by (simp add: process_data_def has_column_iff)
  have a': "process_data (E\<lparr>process_event := h\<rparr>) data = Inl (KeyError ''key_name'')"
    if "\<forall>r\<in>set data. r ''key_name'' = None"
    using that by (simp add: process_data_def has_column_iff)
  have b: "while_true E mr a st =
          Some (Inl (KeyError ''key_name'',
            \<lparr>last_block = last_block st, retry = retry st,
             fetches = fetches st @ [(a, last_block st, last_block st + PAGINATION_SIZE E)],
             saved = saved st\<rparr>))"
    if "\<forall>r\<in>set data. r ''key_name'' = None"
      and "api_get_data E a (last_block st) (last_block st + PAGINATION_SIZE E) = data"
      and "data \<noteq> []" and "retry st \<noteq> mr"
    using loop_body_page [OF that(2,3,4)] a [OF that(1)]
    by (subst while_true.simps) simp
  have c: "process_data E data =
          (case iterrows E (df_filtered (EVENTS_METHODS_MAPPING E) (DataFrame data))
                  (NostraAlphaState E) of
             Inl e \<Rightarrow> Inl e
           | Inr s \<Rightarrow> Inr (get_result_df E s))"
    if "\<exists>r\<in>set data. r ''key_name'' \<noteq> None"
    using that by (simp add: process_data_def has_column_iff)
  from a a' b c d show ?thesis by blast
qed

theorem key_name_column_witness:
  "[''from_address'' \<mapsto> VStr ''A'', ''block_number'' \<mapsto> VInt 10] ''key_name'' = None
   \<and> api_get_data
        (spec_env [[''from_address'' \<mapsto> VStr ''A'', ''block_number'' \<mapsto> VInt 10]] 1000 [''A''])
        ''A'' 0 1000 = [[''from_address'' \<mapsto> VStr ''A'', ''block_number'' \<mapsto> VInt 10]]
   \<and> process_data
        (spec_env [[''from_address'' \<mapsto> VStr ''A'', ''block_number'' \<mapsto> VInt 10]] 1000 [''A''])
        [[''from_address'' \<mapsto> VStr ''A'', ''block_number'' \<mapsto> VInt 10]]
      = Inl (KeyError ''key_name'')
   \<and> while_true
        (spec_env [[''from_address'' \<mapsto> VStr ''A'', ''block_number'' \<mapsto> VInt 10]] 1000 [''A''])
        5 ''A'' (init_state 0)
      = Some (Inl (KeyError ''key_name'',
          \<lparr>last_block = 0, retry = 0, fetches = [(''A'', 0, 1000)], saved = []\<rparr>))
   \<and> event ''Deposit'' ''A'' 10 ''u'' ''X'' 100 ''key_name'' = Some (VStr ''Deposit'')
   \<and> process_data (spec_env [] 1000 [''A'']) [event ''Deposit'' ''A'' 10 ''u'' ''X'' 100]
      = Inr [(''u'', [(''X'', AInt 100)])]"
proof -
  let ?r = "[''from_address'' \<mapsto> VStr ''A'', ''block_number'' \<mapsto> VInt 10] :: raw_event"
  let ?E = "spec_env [?r] 1000 [''A'']"
  let ?st = "init_state 0 :: ledger state"
  let ?d = "event ''Deposit'' ''A'' 10 ''u'' ''X'' 100"
  let ?E2 = "spec_env [] 1000 [''A'']"
  have g1: "?r ''key_name'' = None" by simp
  then have h1: "\<forall>r\<in>set [?r]. r ''key_name'' = None" by simp
  have h2: "api_get_data ?E ''A'' 0 1000 = [?r]"
    by (simp add: spec_env_def spec_source_def in_range_def)
  have h2': "api_get_data ?E ''A'' (last_block ?st) (last_block ?st + PAGINATION_SIZE ?E) = [?r]
      \<and> [?r] \<noteq> [] \<and> retry ?st \<noteq> 5"
    using h2 by (simp add: init_state_def spec_env_def)
  note T = key_name_column [where data = "[?r]" and E = ?E and a = "''A''" and st = ?st
      and mr = 5 and h = "process_event ?E"]
  from T h1 have c1: "process_data ?E [?r] = Inl (KeyError ''key_name'')" by blast
  from T h1 h2' have "while_true ?E 5 ''A'' ?st =
      Some (Inl (KeyError ''key_name'',
            \<lparr>last_block = last_block ?st, retry = retry ?st,
             fetches = fetches ?st @ [(''A'', last_block ?st, last_block ?st + PAGINATION_SIZE ?E)],
             saved = saved ?st\<rparr>))"
    by blast
  then have c2: "while_true ?E 5 ''A'' ?st = Some (Inl (KeyError ''key_name'',
          \<lparr>last_block = 0, retry = 0, fetches = [(''A'', 0, 1000)], saved = []\<rparr>))"
    by (simp add: init_state_def spec_env_def)
  have g3: "?d ''key_name'' = Some (VStr ''Deposit'')"
    by (simp add: event_def)
  then have h3: "\<exists>r\<in>set [?d]. r ''key_name'' \<noteq> None"
    by simp
  note U = key_name_column [where data = "[?d]" and E = ?E2 and a = "''A''" and st = ?st
      and mr = 5 and h = "process_event ?E2"]
  from U h3 have "process_data ?E2 [?d] =
          (case iterrows ?E2 (df_filtered (EVENTS_METHODS_MAPPING ?E2) (DataFrame [?d]))
             (NostraAlphaState ?E2) of
             Inl e \<Rightarrow> Inl e
           | Inr s \<Rightarrow> Inr (get_result_df ?E2 s))"
    by blast
  then have c3: "process_data ?E2 [?d] = Inr [(''u'', [(''X'', AInt 100)])]"
    by (simp add: spec_env_def event_def frame_eval spec_mapping_def spec_process_event_def)
  from g1 h2 c1 c2 g3 c3 show ?thesis by blast
qed

text \<open>
  C10 as stated fails.  In a page of two records of which the second lacks \<open>key_name\<close>,
  the column exists because of the first; the second record gets a missing value, is
  filtered out like an unregistered tag, and \<open>process_data\<close> returns a frame.  (The
  second record lacks \<open>amount\<close> as well, which turns that column, and the amount of the
  deposit, into a float.)
\<close>

theorem key_name_column_counterexample:
  "[''from_address'' \<mapsto> VStr ''A''] ''key_name'' = None
   \<and> process_data (spec_env [] 1000 [''A''])
        [event ''Deposit'' ''A'' 10 ''u'' ''X'' 100, [''from_address'' \<mapsto> VStr ''A'']]
      = Inr [(''u'', [(''X'', AFloat 100)])]"
  by (simp add: spec_eval frame_eval float64_eval)

subsection \<open>Pages and snapshots\<close>

text \<open>
  A source that delivers the pages \<open>ps\<close> and then nothing: the run ends, and what it has
  saved is, page by page, the result of \<open>process_data\<close> on that page alone.
\<close>

lemma while_true_pages:
  assumes d: "delivers E a b ps"
    and ok: "\<forall>p\<in>set ps. \<exists>df. process_data E p = Inr df"
  shows "length ps - i = n \<Longrightarrow> i \<le> length ps \<Longrightarrow>
     last_block st = b + int i * PAGINATION_SIZE E \<Longrightarrow> retry st < mr \<Longrightarrow>
     \<exists>st'. while_true E mr a st = Some (Inr st')
        \<and> map Inr (saved st') = map Inr (saved st) @ map (process_data E) (drop i ps)"
proof (induction n arbitrary: i st)
  case 0
  then have i: "i = length ps" by simp
  have dry: "\<forall>k. api_get_data E a (last_block st + int k * PAGINATION_SIZE E)
          (last_block st + int k * PAGINATION_SIZE E + PAGINATION_SIZE E) = []"
  proof
    fix k
    from d have "\<forall>j\<ge>length ps. api_get_data E a (b + int j * PAGINATION_SIZE E)
        (b + int j * PAGINATION_SIZE E + PAGINATION_SIZE E) = []"
      by (simp add: delivers_def)
    from this [rule_format, of "length ps + k"]
    have "api_get_data E a (b + int (length ps + k) * PAGINATION_SIZE E)
        (b + int (length ps + k) * PAGINATION_SIZE E + PAGINATION_SIZE E) = []"
      by simp
    then show "api_get_data E a (last_block st + int k * PAGINATION_SIZE E)
          (last_block st + int k * PAGINATION_SIZE E + PAGINATION_SIZE E) = []"
      using "0.prems"(3) i by (simp add: algebra_simps)
  qed
  from "0.prems"(4) have le: "retry st \<le> mr" by simp
  from while_true_dry [OF refl le dry] i show ?case by simp
next
  case (Suc n)
  then have lt: "i < length ps" by simp
  from d lt have page: "api_get_data E a (last_block st) (last_block st + PAGINATION_SIZE E) = ps ! i"
    and ne: "ps ! i \<noteq> []"
    using Suc.prems(3) by (simp_all add: delivers_def)
  from ok lt obtain df where df: "process_data E (ps ! i) = Inr df"
    using nth_mem by blast
  from Suc.prems(4) have neq: "retry st \<noteq> mr" by simp
  let ?st1 = "\<lparr>last_block = last_block st + PAGINATION_SIZE E, retry = retry st,
       fetches = fetches st @ [(a, last_block st, last_block st + PAGINATION_SIZE E)],
       saved = saved st @ [df]\<rparr>"
  have body: "loop_body E mr a st = Continue ?st1"
    using loop_body_page [OF page ne neq] df by simp
  have "length ps - Suc i = n" "Suc i \<le> length ps"
    "last_block ?st1 = b + int (Suc i) * PAGINATION_SIZE E" "retry ?st1 < mr"
    using Suc.prems lt by (simp_all add: algebra_simps)
  from Suc.IH [OF this] obtain st' where
    w: "while_true E mr a ?st1 = Some (Inr st')"
    and s: "map Inr (saved st') = map Inr (saved ?st1) @ map (process_data E) (drop (Suc i) ps)"
    by blast
  from body w have "while_true E mr a st = Some (Inr st')"
    by (subst while_true.simps) simp
  moreover from s df lt have
    "map Inr (saved st') = map Inr (saved st) @ map (process_data E) (drop i ps)"
    by (simp add: Cons_nth_drop_Suc [symmetric])
  ultimately show ?case by blast
qed

lemma run_saves_pages:
  assumes "delivers E a b ps"
    and "\<forall>p\<in>set ps. \<exists>df. process_data E p = Inr df"
    and "0 < mr"
  shows "\<exists>st'. run_with E mr b = Some (Inr st')
        \<and> map Inr (saved st') = map (process_data E) ps"
proof -
  have "\<exists>st'. while_true E mr a (init_state b) = Some (Inr st')
        \<and> map Inr (saved st') = map Inr (saved (init_state b :: 'b state))
             @ map (process_data E) (drop 0 ps)"
    using assms(3) by (intro while_true_pages [OF assms(1,2) refl]) (simp_all add: init_state_def)
  then obtain st' where "while_true E mr a (init_state b) = Some (Inr st')"
    and "map Inr (saved st') = map (process_data E) ps"
    by (auto simp add: init_state_def)
  moreover from assms(1) have "PROTOCOL_ADDRESSES E = [a]"
    by (simp add: delivers_def)
  ultimately show ?thesis
    by (auto simp add: run_with_def)
qed

text \<open>
  C3, as the code has it.  \<open>process_data\<close> creates the state object anew for every page,
  so each frame saved is the projection of one page replayed on a fresh ledger, and the
  final frame of a run is that of its last page.  Two runs with the same table, handler
  and projection, whose sources deliver their events in pages \<open>ps\<close> and \<open>qs\<close> (window by
  window, no page empty, every page processed without error), both end, and they end with
  the same final frame whenever the last page of \<open>ps\<close> is the last page of \<open>qs\<close>,
  however the events before it are cut into pages.
\<close>

theorem final_snapshot_last_page:
  assumes "delivers E1 a1 b1 ps" and "delivers E2 a2 b2 qs"
    and "\<forall>p\<in>set ps. \<exists>df. process_data E1 p = Inr df"
    and "\<forall>q\<in>set qs. \<exists>df. process_data E2 q = Inr df"
    and "0 < mr"
    and "process_event E1 = process_event E2"
    and "EVENTS_METHODS_MAPPING E1 = EVENTS_METHODS_MAPPING E2"
    and "NostraAlphaState E1 = NostraAlphaState E2"
    and "get_result_df E1 = get_result_df E2"
    and "ps \<noteq> []" and "qs \<noteq> []" and "last ps = last qs"
  shows "\<exists>s1 s2. run_with E1 mr b1 = Some (Inr s1) \<and> run_with E2 mr b2 = Some (Inr s2)
     \<and> map Inr (saved s1) = map (process_data E1) ps
     \<and> map Inr (saved s2) = map (process_data E2) qs
     \<and> saved s1 \<noteq> [] \<and> saved s2 \<noteq> []
     \<and> process_data E1 (last ps) = Inr (last (saved s1))
     \<and> last (saved s1) = last (saved s2)"
proof -
  from run_saves_pages [OF assms(1,3,5)] obtain s1 where
    r1: "run_with E1 mr b1 = Some (Inr s1)"
    and m1: "map Inr (saved s1) = map (process_data E1) ps"
    by blast
  from run_saves_pages [OF assms(2,4,5)] obtain s2 where
    r2: "run_with E2 mr b2 = Some (Inr s2)"
    and m2: "map Inr (saved s2) = map (process_data E2) qs"
    by blast
  from m1 have "length (saved s1) = length ps"
    by (metis length_map)
  with assms(10) have n1: "saved s1 \<noteq> []" by auto
  from m2 have "length (saved s2) = length qs"
    by (metis length_map)
  with assms(11) have n2: "saved s2 \<noteq> []" by auto
  have l1: "Inr (last (saved s1)) = process_data E1 (last ps)"
    using m1 n1 assms(10) by (metis last_map)
  have l2: "Inr (last (saved s2)) = process_data E2 (last qs)"
    using m2 n2 assms(11) by (metis last_map)
  have "process_data E1 (last ps) = process_data E2 (last qs)"
    using process_data_cong [OF assms(6,7,8,9)] assms(12) by simp
  with l1 l2 have "last (saved s1) = last (saved s2)"
    by (metis sum.inject(2))
  with r1 r2 m1 m2 n1 n2 l1 show ?thesis by auto
qed

theorem final_snapshot_last_page_witness:
  "\<exists>s1 s2.
     run_with (spec_env [event ''Deposit'' ''A'' 10 ''u'' ''X'' 100,
                 event ''Deposit'' ''A'' 600 ''u'' ''X'' 50,
                 event ''Withdraw'' ''A'' 1100 ''u'' ''X'' 40] 500 [''A'']) 5 0 = Some (Inr s1)
   \<and> run_with (spec_env [event ''Deposit'' ''A'' 10 ''u'' ''X'' 100,
                 event ''Deposit'' ''A'' 600 ''u'' ''X'' 50,
                 event ''Withdraw'' ''A'' 1100 ''u'' ''X'' 40] 1100 [''A'']) 5 0 = Some (Inr s2)
   \<and> length (saved s1) = 3 \<and> length (saved s2) = 2
   \<and> last (saved s1) = last (saved s2)
   \<and> last (saved s1) = [(''u'', [(''X'', AInt 0)])]"
proof -
  let ?d1 = "event ''Deposit'' ''A'' 10 ''u'' ''X'' 100"
  let ?d2 = "event ''Deposit'' ''A'' 600 ''u'' ''X'' 50"
  let ?w = "event ''Withdraw'' ''A'' 1100 ''u'' ''X'' 40"
  let ?E1 = "spec_env [?d1, ?d2, ?w] 500 [''A'']"
  let ?E2 = "spec_env [?d1, ?d2, ?w] 1100 [''A'']"
  let ?ps = "[[?d1], [?d2], [?w]]"
  let ?qs = "[[?d1, ?d2], [?w]]"
  have h1: "delivers ?E1 ''A'' 0 ?ps"
    by (auto simp add: delivers_def spec_env_def spec_source_def in_range_def event_def
        All_less_Suc)
  have h2: "delivers ?E2 ''A'' 0 ?qs"
    by (auto simp add: delivers_def spec_env_def spec_source_def in_range_def event_def
        All_less_Suc)
  have h3: "\<forall>p\<in>set ?ps. \<exists>df. process_data ?E1 p = Inr df"
    by (simp add: spec_eval frame_eval)
  have h4: "\<forall>q\<in>set ?qs. \<exists>df. process_data ?E2 q = Inr df"
    by (simp add: spec_eval frame_eval)
  have h5: "(0::int) < 5" by simp
  have h6: "process_event ?E1 = process_event ?E2"
    and h7: "EVENTS_METHODS_MAPPING ?E1 = EVENTS_METHODS_MAPPING ?E2"
    and h8: "NostraAlphaState ?E1 = NostraAlphaState ?E2"
    and h9: "get_result_df ?E1 = get_result_df ?E2"
    by (simp_all add: spec_env_def)
  have h10: "?ps \<noteq> []" and h11: "?qs \<noteq> []" and h12: "last ?ps = last ?qs"
    by simp_all
  from final_snapshot_last_page [OF h1 h2 h3 h4 h5 h6 h7 h8 h9 h10 h11 h12]
  obtain s1 s2 where r1: "run_with ?E1 5 0 = Some (Inr s1)"
    and r2: "run_with ?E2 5 0 = Some (Inr s2)"
    and m1: "map Inr (saved s1) = map (process_data ?E1) ?ps"
    and m2: "map Inr (saved s2) = map (process_data ?E2) ?qs"
    and l: "process_data ?E1 (last ?ps) = Inr (last (saved s1))"
    and e: "last (saved s1) = last (saved s2)"
    by blast
  from m1 have n1: "length (saved s1) = 3"
    by (metis length_map length_Cons list.size(3) numeral_3_eq_3)
  from m2 have n2: "length (saved s2) = 2"
    by (metis length_map length_Cons list.size(3) numeral_2_eq_2)
  have "process_data ?E1 (last ?ps) = Inr [(''u'', [(''X'', AInt 0)])]"
    by (simp add: spec_eval frame_eval)
  with l have v: "last (saved s1) = [(''u'', [(''X'', AInt 0)])]" by simp
  from r1 r2 n1 n2 e v show ?thesis by blast
qed

text \<open>
  C3 as stated fails.  The same chain, a deposit of 100 at block 10 and a withdrawal of 40
  at block 1500 for the same account and asset, read with a window of 2000 arrives as one
  page and ends in a frame with 60; read with a window of 1000 it arrives as two pages,
  and the final frame, built from the withdrawal alone on a fresh ledger, has 0.
\<close>

theorem page_split_counterexample:
  "run (spec_env [event ''Deposit'' ''A'' 10 ''u'' ''X'' 100,
                  event ''Withdraw'' ''A'' 1500 ''u'' ''X'' 40] 2000 [''A'']) 0 =
     Some (Inr \<lparr>last_block = 12000, retry = 5,
       fetches = [(''A'', 0, 2000), (''A'', 2000, 4000), (''A'', 4000, 6000),
                  (''A'', 6000, 8000), (''A'', 8000, 10000), (''A'', 10000, 12000),
                  (''A'', 12000, 14000)],
       saved = [[(''u'', [(''X'', AInt 60)])]]\<rparr>)
   \<and> run (spec_env [event ''Deposit'' ''A'' 10 ''u'' ''X'' 100,
                  event ''Withdraw'' ''A'' 1500 ''u'' ''X'' 40] 1000 [''A'']) 0 =
     Some (Inr \<lparr>last_block = 7000, retry = 5,
       fetches = [(''A'', 0, 1000), (''A'', 1000, 2000), (''A'', 2000, 3000),
                  (''A'', 3000, 4000), (''A'', 4000, 5000), (''A'', 5000, 6000),
                  (''A'', 6000, 7000), (''A'', 7000, 8000)],
       saved = [[(''u'', [(''X'', AInt 100)])], [(''u'', [(''X'', AInt 0)])]]\<rparr>)"
  by (simp add: run_eval spec_eval frame_eval)

subsection \<open>The retry budget\<close>

text \<open>
  C2, as the code has it.  A non-empty page fetched while the retry counter is below the
  bound is handed to \<open>process_data\<close>; the frame that comes back is appended to what was
  saved and the cursor moves on; an exception of \<open>process_data\<close> leaves \<open>run\<close> with
  nothing saved for the page.  \<open>process_data\<close> in turn, on a page with a \<open>key_name\<close>
  column, is the dispatch loop over the filtered frame of the page followed by the
  projection.
\<close>

theorem nonempty_page_processed:
  assumes "api_get_data E a (last_block st) (last_block st + PAGINATION_SIZE E) = data"
    and "data \<noteq> []" and "retry st < mr"
  shows "loop_body E mr a st =
     (case process_data E data of
        Inl e \<Rightarrow> Raise e \<lparr>last_block = last_block st, retry = retry st,
            fetches = fetches st @ [(a, last_block st, last_block st + PAGINATION_SIZE E)],
            saved = saved st\<rparr>
      | Inr df \<Rightarrow> Continue \<lparr>last_block = last_block st + PAGINATION_SIZE E, retry = retry st,
            fetches = fetches st @ [(a, last_block st, last_block st + PAGINATION_SIZE E)],
            saved = saved st @ [df]\<rparr>)
   \<and> (has_column ''key_name'' data \<longrightarrow>
        process_data E data =
          (case iterrows E (df_filtered (EVENTS_METHODS_MAPPING E) (DataFrame data))
                  (NostraAlphaState E) of
             Inl e \<Rightarrow> Inl e
           | Inr s \<Rightarrow> Inr (get_result_df E s)))"
  using assms by (simp add: loop_body_page process_data_def)

theorem nonempty_page_processed_witness:
  "api_get_data (spec_env [event ''Deposit'' ''A'' 10 ''u'' ''X'' 100] 1000 [''A'']) ''A''
      (last_block (init_state 0 :: ledger state))
      (last_block (init_state 0 :: ledger state)
         + PAGINATION_SIZE (spec_env [event ''Deposit'' ''A'' 10 ''u'' ''X'' 100] 1000 [''A'']))
     = [event ''Deposit'' ''A'' 10 ''u'' ''X'' 100]
   \<and> [event ''Deposit'' ''A'' 10 ''u'' ''X'' 100] \<noteq> []
   \<and> retry (init_state 0 :: ledger state) < 5
   \<and> has_column ''key_name'' [event ''Deposit'' ''A'' 10 ''u'' ''X'' 100]
   \<and> loop_body (spec_env [event ''Deposit'' ''A'' 10 ''u'' ''X'' 100] 1000 [''A'']) 5 ''A''
        (init_state 0)
      = Continue \<lparr>last_block = 1000, retry = 0, fetches = [(''A'', 0, 1000)],
          saved = [[(''u'', [(''X'', AInt 100)])]]\<rparr>"
proof -
  let ?d = "event ''Deposit'' ''A'' 10 ''u'' ''X'' 100"
  let ?E = "spec_env [?d] 1000 [''A'']"
  let ?st = "init_state 0 :: ledger state"
  have h1: "api_get_data ?E ''A'' (last_block ?st) (last_block ?st + PAGINATION_SIZE ?E) = [?d]"
    by (simp add: init_state_def spec_env_def spec_source_def in_range_def event_def)
  have h2: "[?d] \<noteq> []" by simp
  have h3: "retry ?st < 5" by (simp add: init_state_def)
  have h4: "has_column ''key_name'' [?d]" by (simp add: has_column_def event_def)
  note T = nonempty_page_processed [OF h1 h2 h3]
  from T h4 have p: "process_data ?E [?d] =
          (case iterrows ?E (df_filtered (EVENTS_METHODS_MAPPING ?E) (DataFrame [?d]))
             (NostraAlphaState ?E) of
             Inl e \<Rightarrow> Inl e
           | Inr s \<Rightarrow> Inr (get_result_df ?E s))"
    by blast
  then have p': "process_data ?E [?d] = Inr [(''u'', [(''X'', AInt 100)])]"
    by (simp add: spec_env_def event_def frame_eval spec_mapping_def spec_process_event_def)
  from T p' have "loop_body ?E 5 ''A'' ?st
      = Continue \<lparr>last_block = 1000, retry = 0, fetches = [(''A'', 0, 1000)],
          saved = [[(''u'', [(''X'', AInt 100)])]]\<rparr>"
    by (simp add: init_state_def spec_env_def)
  with h1 h2 h3 h4 show ?thesis by blast
qed

text \<open>
  C2 as stated fails.  On a chain whose only event lies in the sixth window, the run
  fetches five empty pages, fetches the sixth page, which holds the event, and leaves the
  loop: nothing was processed and nothing saved.
\<close>

theorem nonempty_page_counterexample:
  "api_get_data (spec_env [event ''Deposit'' ''A'' 5500 ''u'' ''X'' 100] 1000 [''A''])
      ''A'' 5000 6000 = [event ''Deposit'' ''A'' 5500 ''u'' ''X'' 100]
   \<and> run (spec_env [event ''Deposit'' ''A'' 5500 ''u'' ''X'' 100] 1000 [''A'']) 0 =
     Some (Inr \<lparr>last_block = 5000, retry = 5,
       fetches = [(''A'', 0, 1000), (''A'', 1000, 2000), (''A'', 2000, 3000),
                  (''A'', 3000, 4000), (''A'', 4000, 5000), (''A'', 5000, 6000)],
       saved = []\<rparr>)"
  by (simp add: run_eval spec_env_def spec_source_def in_range_def event_def)

subsection \<open>From one address to the next\<close>

text \<open>
  \<open>run\<close> sets \<open>retry = 0\<close> once, before the loop over the addresses, and the loop of an
  address can only be left with the counter at the bound.  So whatever the source holds
  for it, every address after the first is asked for a single page, at the cursor the
  previous address stopped at, and the loop is left with that page unprocessed.
\<close>

lemma later_address_single_fetch:
  assumes "while_true E mr a st = Some (Inr st')"
  shows "while_true E mr b st' =
     Some (Inr \<lparr>last_block = last_block st', retry = retry st',
       fetches = fetches st' @ [(b, last_block st', last_block st' + PAGINATION_SIZE E)],
       saved = saved st'\<rparr>)"
proof -
  from while_true_exit [OF assms] have "retry st' = mr" by simp
  then show ?thesis
    by (subst while_true.simps) (simp add: loop_body_exhausted)
qed

text \<open>
  C4.  The counter is meant to be the state of one address: zero when the ingestion of an
  address begins, zero again after a page with events.  The run below has two addresses;
  the only event of \<open>A\<close> lies in its second window, the only event of \<open>B\<close> in the window
  from 6000.  The page with the event of \<open>A\<close> does not clear the count: one empty page
  before it and four after it use up the budget of five.  \<open>B\<close> then starts with the
  counter at five: its one fetch returns its event, and the loop breaks without
  processing it.  Only the frame of \<open>A\<close> was saved.
\<close>

theorem retry_kept_across_addresses:
  "run (spec_env [event ''Deposit'' ''A'' 1500 ''u'' ''X'' 100,
                  event ''Deposit'' ''B'' 6500 ''v'' ''X'' 70] 1000 [''A'', ''B'']) 0 =
     Some (Inr \<lparr>last_block = 6000, retry = 5,
       fetches = [(''A'', 0, 1000), (''A'', 1000, 2000), (''A'', 2000, 3000),
                  (''A'', 3000, 4000), (''A'', 4000, 5000), (''A'', 5000, 6000),
                  (''A'', 6000, 7000), (''B'', 6000, 7000)],
       saved = [[(''u'', [(''X'', AInt 100)])]]\<rparr>)
   \<and> api_get_data (spec_env [event ''Deposit'' ''A'' 1500 ''u'' ''X'' 100,
                  event ''Deposit'' ''B'' 6500 ''v'' ''X'' 70] 1000 [''A'', ''B''])
        ''B'' 6000 7000 = [event ''Deposit'' ''B'' 6500 ''v'' ''X'' 70]"
  by (simp add: run_eval spec_eval frame_eval)

text \<open>
  C5.  Each address is meant to be ingested from the configured starting block, with a
  cursor of its own.  In the run below the chain is empty for \<open>A\<close> and holds one event of
  \<open>B\<close> at block 500.  After the six fetches for \<open>A\<close> the cursor stands at 5000, and the
  one fetch for \<open>B\<close> asks for the blocks from 5000 to 6000; the window from 0, which holds
  the event of \<open>B\<close>, is never requested for \<open>B\<close>, and nothing is saved.
\<close>

theorem cursor_kept_across_addresses:
  "run (spec_env [event ''Deposit'' ''B'' 500 ''v'' ''X'' 70] 1000 [''A'', ''B'']) 0 =
     Some (Inr \<lparr>last_block = 5000, retry = 5,
       fetches = [(''A'', 0, 1000), (''A'', 1000, 2000), (''A'', 2000, 3000),
                  (''A'', 3000, 4000), (''A'', 4000, 5000), (''A'', 5000, 6000),
                  (''B'', 5000, 6000)],
       saved = []\<rparr>)
   \<and> api_get_data (spec_env [event ''Deposit'' ''B'' 500 ''v'' ''X'' 70] 1000 [''A'', ''B''])
        ''B'' 0 1000 = [event ''Deposit'' ''B'' 500 ''v'' ''X'' 70]"
  by (simp add: run_eval spec_eval frame_eval)

end
